theory Spec2Isabelle
  imports Main
begin

section \<open>Data model (movies/models.py)\<close>

text \<open>
  The Django models \<open>Movie\<close>, \<open>Show\<close> and \<open>Booking\<close> as records. Primary keys, user ids and
  timestamps are natural numbers; \<open>IntegerField\<close> columns are integers. A foreign key
  is stored as the key of the row it points to (Django's \<open>show_id\<close>, \<open>user_id\<close>
  attributes). The primary key \<open>id\<close> of a booking is called \<open>pk\<close>, as Django
  also names it. \<open>Booking.status\<close> takes the two values of \<open>STATUS_CHOICES\<close>.
\<close>

datatype booking_status = Booked | Cancelled

record Movie =
  title :: string
  duration_minutes :: int
  movie_created_at :: nat

record Show =
  movie :: nat
  screen_name :: string
  date_time :: nat
  total_seats :: int
  show_created_at :: nat

record Booking =
  pk :: nat
  user_id :: nat
  show_id :: nat
  seat_number :: int
  status :: booking_status
  created_at :: nat
  updated_at :: nat

text \<open>
  The database: the usernames of Django's \<open>User\<close> table, the \<open>Movie\<close> and \<open>Show\<close>
  tables by primary key, the \<open>Booking\<close> table as the list of its rows in insertion
  order, and the auto-increment counter of \<open>Booking.id\<close>.
\<close>

record store =
  User_objects :: "nat \<Rightarrow> string option"
  Movie_objects :: "nat \<Rightarrow> Movie option"
  Show_objects :: "nat \<Rightarrow> Show option"
  Booking_objects :: "Booking list"
  next_pk :: nat

section \<open>Outcomes\<close>

text \<open>
  Every early \<open>return Response(...)\<close> of the two views is one constructor of
  \<open>error\<close>; \<open>status_code\<close> is the HTTP status the view attaches to it. A serializer
  error carries the reason the field was refused. \<open>IntegrityError\<close> is what the
  database raises when a write breaks \<open>unique_together\<close>.
\<close>

datatype seat_error =
    Invalid
  | MinValue
  | SeatOutOfRange int
  | InvalidShow

datatype error =
    ShowNotFound
  | ValidationError seat_error
  | SeatAlreadyBooked
  | ShowFull
  | BookingFailed
  | BookingNotFound
  | Forbidden
  | AlreadyCancelled
  | CancellationFailed

datatype db_error = IntegrityError

fun status_code :: "error \<Rightarrow> nat" where
  "status_code ShowNotFound = 404"
| "status_code (ValidationError e) = 400"
| "status_code SeatAlreadyBooked = 400"
| "status_code ShowFull = 400"
| "status_code BookingFailed = 500"
| "status_code BookingNotFound = 404"
| "status_code Forbidden = 403"
| "status_code AlreadyCancelled = 400"
| "status_code CancellationFailed = 500"

section \<open>Queries and writes on the Booking table\<close>

text \<open>
  \<open>Booking.objects.filter(show=show, seat_number=seat_number, status="booked")\<close> and
  \<open>Booking.objects.filter(show=show, status="booked")\<close>: \<open>.exists()\<close> asks whether
  the list is non-empty, \<open>.count()\<close> is its length.
\<close>

definition booked_for_seat :: "store \<Rightarrow> nat \<Rightarrow> int \<Rightarrow> Booking list" where
  "booked_for_seat s sid n =
     filter (\<lambda>b. show_id b = sid \<and> seat_number b = n \<and> status b = Booked) (Booking_objects s)"

definition booked_for_show :: "store \<Rightarrow> nat \<Rightarrow> Booking list" where
  "booked_for_show s sid =
     filter (\<lambda>b. show_id b = sid \<and> status b = Booked) (Booking_objects s)"

text \<open>\<open>Booking.objects.get(id=booking_id)\<close>; \<open>None\<close> is \<open>Booking.DoesNotExist\<close>.\<close>

definition get_booking :: "store \<Rightarrow> nat \<Rightarrow> Booking option" where
  "get_booking s bid = find (\<lambda>r. pk r = bid) (Booking_objects s)"

text \<open>
  \<open>Booking.Meta.unique_together = ["show", "seat_number", "status"]\<close>: the table
  refuses a row that agrees with another row on all three columns. The status column is
  part of the key whatever its value.
\<close>

definition violates_unique_together :: "Booking list \<Rightarrow> Booking \<Rightarrow> bool" where
  "violates_unique_together rows b =
     (filter (\<lambda>r. pk r \<noteq> pk b \<and> show_id r = show_id b \<and>
                  seat_number r = seat_number b \<and> status r = status b) rows \<noteq> [])"

text \<open>
  \<open>Booking.objects.create(user=..., show=..., seat_number=..., status="booked")\<close>:
  an INSERT with a fresh primary key; \<open>auto_now_add\<close> and \<open>auto_now\<close> set both
  timestamps to the time of the call.
\<close>

definition create :: "store \<Rightarrow> nat \<Rightarrow> nat \<Rightarrow> nat \<Rightarrow> int \<Rightarrow> db_error + (Booking \<times> store)" where
  "create s now u sid n =
     (let b = \<lparr>pk = next_pk s, user_id = u, show_id = sid, seat_number = n,
               status = Booked, created_at = now, updated_at = now\<rparr>
      in if violates_unique_together (Booking_objects s) b then Inl IntegrityError
         else Inr (b, s\<lparr>Booking_objects := Booking_objects s @ [b], next_pk := Suc (next_pk s)\<rparr>))"

text \<open>
  \<open>booking.save()\<close> on a fetched row: an UPDATE of the row with that primary key,
  with \<open>updated_at\<close> set by \<open>auto_now\<close>.
\<close>

definition save :: "store \<Rightarrow> nat \<Rightarrow> Booking \<Rightarrow> db_error + (Booking \<times> store)" where
  "save s now b =
     (let b' = b\<lparr>updated_at := now\<rparr>
      in if violates_unique_together (Booking_objects s) b' then Inl IntegrityError
         else Inr (b', s\<lparr>Booking_objects := map (\<lambda>r. if pk r = pk b' then b' else r) (Booking_objects s)\<rparr>))"

section \<open>Seat validation (movies/serializers.py, BookingCreateSerializer)\<close>

text \<open>
  The request body's \<open>seat_number\<close> is \<open>None\<close> when it is missing or not an integer.
  \<open>seat_number_field\<close> is the declared field \<open>IntegerField(min_value=1)\<close>;
  \<open>validate_seat_number\<close> is the serializer's method of that name, which the framework
  calls on a value the field has accepted; \<open>is_valid\<close> is the two in that order.
\<close>

definition seat_number_field :: "int option \<Rightarrow> seat_error + int" where
  "seat_number_field d =
     (case d of None \<Rightarrow> Inl Invalid
      | Some v \<Rightarrow> if v < 1 then Inl MinValue else Inr v)"

definition validate_seat_number :: "store \<Rightarrow> nat \<Rightarrow> int \<Rightarrow> seat_error + int" where
  "validate_seat_number s sid v =
     (case Show_objects s sid of
        None \<Rightarrow> Inl InvalidShow
      | Some sh \<Rightarrow> if v > total_seats sh then Inl (SeatOutOfRange (total_seats sh)) else Inr v)"

definition is_valid :: "store \<Rightarrow> nat \<Rightarrow> int option \<Rightarrow> seat_error + int" where
  "is_valid s sid d =
     (case seat_number_field d of
        Inl e \<Rightarrow> Inl e
      | Inr v \<Rightarrow> validate_seat_number s sid v)"

section \<open>Response serializers (movies/serializers.py)\<close>

text \<open>
  \<open>ShowSerializer\<close> is a \<open>ModelSerializer\<close> with the fields \<open>id\<close>, \<open>movie\<close>,
  \<open>movie_title\<close>, \<open>screen_name\<close>, \<open>date_time\<close>, \<open>total_seats\<close>,
  \<open>available_seats\<close> and \<open>created_at\<close>; \<open>get_available_seats\<close> counts the booked
  rows of the show at the time of serialization.

  \<open>BookingSerializer\<close> is declared as \<open>serializers.Serializer\<close>, not as a
  \<open>ModelSerializer\<close>, so the framework does not read its \<open>Meta.fields\<close>: the data it
  produces holds the two declared fields only, \<open>show_details\<close> (the booking's show through
  \<open>ShowSerializer\<close>) and \<open>username\<close> (\<open>user.username\<close>). A source object that does
  not exist is rendered as \<open>None\<close>.
\<close>

record show_data =
  sd_id :: nat
  sd_movie :: nat
  sd_movie_title :: "string option"
  sd_screen_name :: string
  sd_date_time :: nat
  sd_total_seats :: int
  sd_available_seats :: int
  sd_created_at :: nat

record booking_data =
  show_details :: "show_data option"
  username :: "string option"

definition get_available_seats :: "store \<Rightarrow> nat \<Rightarrow> Show \<Rightarrow> int" where
  "get_available_seats s sid obj = total_seats obj - int (length (booked_for_show s sid))"

definition ShowSerializer :: "store \<Rightarrow> nat \<Rightarrow> Show \<Rightarrow> show_data" where
  "ShowSerializer s sid obj =
     \<lparr>sd_id = sid, sd_movie = movie obj,
      sd_movie_title = map_option title (Movie_objects s (movie obj)),
      sd_screen_name = screen_name obj, sd_date_time = date_time obj,
      sd_total_seats = total_seats obj,
      sd_available_seats = get_available_seats s sid obj,
      sd_created_at = show_created_at obj\<rparr>"

definition BookingSerializer :: "store \<Rightarrow> Booking \<Rightarrow> booking_data" where
  "BookingSerializer s b =
     \<lparr>show_details = map_option (ShowSerializer s (show_id b)) (Show_objects s (show_id b)),
      username = User_objects s (user_id b)\<rparr>"

section \<open>The views (movies/views.py)\<close>

text \<open>
  \<open>BookSeatView.post\<close>. The arguments are the database, the time of the call, the
  authenticated user (a row of the \<open>User\<close> table), the show id of the path and the
  body's seat number. The result is the response (an error, or the \<open>booking\<close> entry of
  the 201 body, which is \<open>BookingSerializer(booking).data\<close> read inside the transaction)
  and the database after the call. A return inside \<open>transaction.atomic()\<close> before the
  insert has written nothing; an exception rolls the transaction back.
\<close>

definition BookSeatView_post ::
  "store \<Rightarrow> nat \<Rightarrow> nat \<Rightarrow> nat \<Rightarrow> int option \<Rightarrow> (error + booking_data) \<times> store" where
  "BookSeatView_post s now u sid d =
     (case Show_objects s sid of
        None \<Rightarrow> (Inl ShowNotFound, s)
      | Some sh \<Rightarrow>
          (case is_valid s sid d of
             Inl e \<Rightarrow> (Inl (ValidationError e), s)
           | Inr n \<Rightarrow>
               if booked_for_seat s sid n \<noteq> [] then (Inl SeatAlreadyBooked, s)
               else if int (length (booked_for_show s sid)) \<ge> total_seats sh
                 then (Inl ShowFull, s)
               else (case create s now u sid n of
                       Inl ex \<Rightarrow> (Inl BookingFailed, s)
                     | Inr (b, s') \<Rightarrow> (Inr (BookingSerializer s' b), s'))))"

text \<open>
  \<open>CancelBookingView.post\<close>: the database, the time of the call, the authenticated
  user and the booking id of the path. On success the result is the \<open>booking\<close> entry
  of the 200 body, \<open>BookingSerializer(booking).data\<close> read after the save.
\<close>

definition CancelBookingView_post ::
  "store \<Rightarrow> nat \<Rightarrow> nat \<Rightarrow> nat \<Rightarrow> (error + booking_data) \<times> store" where
  "CancelBookingView_post s now u bid =
     (case get_booking s bid of
        None \<Rightarrow> (Inl BookingNotFound, s)
      | Some b \<Rightarrow>
          if user_id b \<noteq> u then (Inl Forbidden, s)
          else if status b = Cancelled then (Inl AlreadyCancelled, s)
          else (case save s now (b\<lparr>status := Cancelled\<rparr>) of
                  Inl ex \<Rightarrow> (Inl CancellationFailed, s)
                | Inr (b', s') \<Rightarrow> (Inr (BookingSerializer s' b'), s')))"

section \<open>Sequences of requests\<close>

text \<open>
  A request as the URL configuration routes it: \<open>Book now user show_id seat_number\<close>
  is a POST to \<open>shows/<show_id>/book/\<close>, \<open>Cancel now user booking_id\<close> a POST to
  \<open>bookings/<booking_id>/cancel/\<close>. \<open>run\<close> serves a list of requests one after
  another and gives the database they leave.
\<close>

datatype request =
    Book nat nat nat "int option"
  | Cancel nat nat nat

fun handle :: "store \<Rightarrow> request \<Rightarrow> store" where
  "handle s (Book now u sid d) = snd (BookSeatView_post s now u sid d)"
| "handle s (Cancel now u bid) = snd (CancelBookingView_post s now u bid)"

definition run :: "store \<Rightarrow> request list \<Rightarrow> store" where
  "run s rs = foldl handle s rs"

section \<open>Concrete databases used in the examples\<close>

definition screen1 :: "int \<Rightarrow> Show" where
  "screen1 c = \<lparr>movie = 1, screen_name = ''Screen 1'', date_time = 100,
                total_seats = c, show_created_at = 0\<rparr>"

definition test_users :: "nat \<Rightarrow> string option" where
  "test_users = [1 \<mapsto> ''testuser1'', 2 \<mapsto> ''testuser2'', 3 \<mapsto> ''testuser3'']"

definition test_movies :: "nat \<Rightarrow> Movie option" where
  "test_movies = [1 \<mapsto> \<lparr>title = ''Test Movie'', duration_minutes = 120, movie_created_at = 0\<rparr>]"

definition empty_ledger :: "int \<Rightarrow> store" where
  "empty_ledger c = \<lparr>User_objects = test_users, Movie_objects = test_movies,
     Show_objects = [1 \<mapsto> screen1 c], Booking_objects = [], next_pk = 1\<rparr>"

text \<open>
  \<open>seat1_taken\<close>: a one-seat show after user 1 has booked seat 1.
  \<open>seat1_cancelled\<close>: the same after user 1 has cancelled.
  \<open>rebooked\<close>: a ten-seat show where user 1 booked and cancelled seat 1 and user 2
  then booked it. \<open>shrunk_show\<close>: a show whose \<open>total_seats\<close> was lowered to 1 in
  the admin (movies/admin.py registers \<open>Show\<close>) while seat 2 was booked.
\<close>

definition seat1_taken :: store where
  "seat1_taken = run (empty_ledger 1) [Book 10 1 1 (Some 1)]"

definition seat1_cancelled :: store where
  "seat1_cancelled = run (empty_ledger 1) [Book 10 1 1 (Some 1), Cancel 11 1 1]"

definition rebooked :: store where
  "rebooked = run (empty_ledger 10) [Book 10 1 1 (Some 1), Cancel 11 1 1, Book 12 2 1 (Some 1)]"

definition shrunk_show :: store where
  "shrunk_show = \<lparr>User_objects = test_users, Movie_objects = test_movies,
     Show_objects = [1 \<mapsto> screen1 1],
     Booking_objects = [\<lparr>pk = 1, user_id = 1, show_id = 1, seat_number = 2,
                          status = Booked, created_at = 10, updated_at = 10\<rparr>],
     next_pk = 2\<rparr>"

section \<open>What a request does to the database\<close>

lemma book_effect:
  "snd (BookSeatView_post s now u sid d) = s \<or>
   (\<exists>sh n. Show_objects s sid = Some sh \<and> is_valid s sid d = Inr n \<and>
      booked_for_seat s sid n = [] \<and>
      int (length (booked_for_show s sid)) < total_seats sh \<and>
      snd (BookSeatView_post s now u sid d) =
        s\<lparr>Booking_objects := Booking_objects s @
              [\<lparr>pk = next_pk s, user_id = u, show_id = sid, seat_number = n,
                status = Booked, created_at = now, updated_at = now\<rparr>],
          next_pk := Suc (next_pk s)\<rparr>)"
  by (auto simp: BookSeatView_post_def create_def Let_def split: option.splits sum.splits)

lemma cancel_effect:
  "snd (CancelBookingView_post s now u bid) = s \<or>
   (\<exists>b. get_booking s bid = Some b \<and> user_id b = u \<and> status b = Booked \<and>
      snd (CancelBookingView_post s now u bid) =
        s\<lparr>Booking_objects :=
            map (\<lambda>r. if pk r = pk b then b\<lparr>status := Cancelled, updated_at := now\<rparr> else r)
              (Booking_objects s)\<rparr>)"
  by (cases "get_booking s bid")
     (auto simp: CancelBookingView_post_def save_def Let_def split: sum.splits booking_status.splits
           intro: booking_status.exhaust)

lemma length_filter_replace_le:
  assumes "\<not> P c"
  shows "length (filter P (map (\<lambda>r. if pk r = k then c else r) rows)) \<le> length (filter P rows)"
  using assms by (induction rows) auto

lemma handle_Show_objects: "Show_objects (handle s r) = Show_objects s"
proof (cases r)
  case (Book now u sid d)
  then show ?thesis using book_effect [of s now u sid d] by auto
next
  case (Cancel now u bid)
  then show ?thesis using cancel_effect [of s now u bid] by auto
qed

lemma run_Show_objects: "Show_objects (run s rs) = Show_objects s"
  unfolding run_def by (induction rs arbitrary: s) (simp_all add: handle_Show_objects)

lemma handle_seat:
  assumes "length (booked_for_seat s sid n) \<le> 1"
  shows "length (booked_for_seat (handle s r) sid n) \<le> 1"
proof (cases r)
  case (Book now u sid' d)
  from book_effect [of s now u sid' d] show ?thesis
  proof
    assume "snd (BookSeatView_post s now u sid' d) = s"
    with Book assms show ?thesis by simp
  next
    assume "\<exists>sh m. Show_objects s sid' = Some sh \<and> is_valid s sid' d = Inr m \<and>
      booked_for_seat s sid' m = [] \<and>
      int (length (booked_for_show s sid')) < total_seats sh \<and>
      snd (BookSeatView_post s now u sid' d) =
        s\<lparr>Booking_objects := Booking_objects s @
              [\<lparr>pk = next_pk s, user_id = u, show_id = sid', seat_number = m,
                status = Booked, created_at = now, updated_at = now\<rparr>],
          next_pk := Suc (next_pk s)\<rparr>"
    then obtain m where e: "booked_for_seat s sid' m = []"
      and s': "handle s r = s\<lparr>Booking_objects := Booking_objects s @
              [\<lparr>pk = next_pk s, user_id = u, show_id = sid', seat_number = m,
                status = Booked, created_at = now, updated_at = now\<rparr>],
          next_pk := Suc (next_pk s)\<rparr>"
      using Book by auto
    show ?thesis
    proof (cases "sid' = sid \<and> m = n")
      case True
      with e s' show ?thesis by (simp add: booked_for_seat_def)
    next
      case False
      with assms s' show ?thesis by (auto simp: booked_for_seat_def)
    qed
  qed
next
  case (Cancel now u bid)
  from cancel_effect [of s now u bid] show ?thesis
  proof
    assume "snd (CancelBookingView_post s now u bid) = s"
    with Cancel assms show ?thesis by simp
  next
    assume "\<exists>b. get_booking s bid = Some b \<and> user_id b = u \<and> status b = Booked \<and>
      snd (CancelBookingView_post s now u bid) =
        s\<lparr>Booking_objects :=
            map (\<lambda>r. if pk r = pk b then b\<lparr>status := Cancelled, updated_at := now\<rparr> else r)
              (Booking_objects s)\<rparr>"
    then obtain b where s': "handle s r = s\<lparr>Booking_objects :=
            map (\<lambda>r. if pk r = pk b then b\<lparr>status := Cancelled, updated_at := now\<rparr> else r)
              (Booking_objects s)\<rparr>"
      using Cancel by auto
    have "length (booked_for_seat (handle s r) sid n) \<le> length (booked_for_seat s sid n)"
    proof -
      have rows: "Booking_objects (handle s r) =
          map (\<lambda>r. if pk r = pk b then b\<lparr>status := Cancelled, updated_at := now\<rparr> else r)
            (Booking_objects s)"
        using s' by simp
      show ?thesis
        unfolding booked_for_seat_def rows by (rule length_filter_replace_le) simp
    qed
    with assms show ?thesis by simp
  qed
qed

lemma handle_show_count:
  assumes "Show_objects s sid = Some sh" "int (length (booked_for_show s sid)) \<le> total_seats sh"
  shows "int (length (booked_for_show (handle s r) sid)) \<le> total_seats sh"
proof (cases r)
  case (Book now u sid' d)
  from book_effect [of s now u sid' d] show ?thesis
  proof
    assume "snd (BookSeatView_post s now u sid' d) = s"
    with Book assms show ?thesis by simp
  next
    assume "\<exists>sh m. Show_objects s sid' = Some sh \<and> is_valid s sid' d = Inr m \<and>
      booked_for_seat s sid' m = [] \<and>
      int (length (booked_for_show s sid')) < total_seats sh \<and>
      snd (BookSeatView_post s now u sid' d) =
        s\<lparr>Booking_objects := Booking_objects s @
              [\<lparr>pk = next_pk s, user_id = u, show_id = sid', seat_number = m,
                status = Booked, created_at = now, updated_at = now\<rparr>],
          next_pk := Suc (next_pk s)\<rparr>"
    then obtain sh' m where sh': "Show_objects s sid' = Some sh'"
      and lt: "int (length (booked_for_show s sid')) < total_seats sh'"
      and s': "handle s r = s\<lparr>Booking_objects := Booking_objects s @
              [\<lparr>pk = next_pk s, user_id = u, show_id = sid', seat_number = m,
                status = Booked, created_at = now, updated_at = now\<rparr>],
          next_pk := Suc (next_pk s)\<rparr>"
      using Book by auto
    show ?thesis
    proof (cases "sid' = sid")
      case True
      with sh' lt assms s' show ?thesis by (simp add: booked_for_show_def)
    next
      case False
      with assms s' show ?thesis by (simp add: booked_for_show_def)
    qed
  qed
next
  case (Cancel now u bid)
  from cancel_effect [of s now u bid] show ?thesis
  proof
    assume "snd (CancelBookingView_post s now u bid) = s"
    with Cancel assms show ?thesis by simp
  next
    assume "\<exists>b. get_booking s bid = Some b \<and> user_id b = u \<and> status b = Booked \<and>
      snd (CancelBookingView_post s now u bid) =
        s\<lparr>Booking_objects :=
            map (\<lambda>r. if pk r = pk b then b\<lparr>status := Cancelled, updated_at := now\<rparr> else r)
              (Booking_objects s)\<rparr>"
    then obtain b where s': "handle s r = s\<lparr>Booking_objects :=
            map (\<lambda>r. if pk r = pk b then b\<lparr>status := Cancelled, updated_at := now\<rparr> else r)
              (Booking_objects s)\<rparr>"
      using Cancel by auto
    have "length (booked_for_show (handle s r) sid) \<le> length (booked_for_show s sid)"
    proof -
      have rows: "Booking_objects (handle s r) =
          map (\<lambda>r. if pk r = pk b then b\<lparr>status := Cancelled, updated_at := now\<rparr> else r)
            (Booking_objects s)"
        using s' by simp
      show ?thesis
        unfolding booked_for_show_def rows by (rule length_filter_replace_le) simp
    qed
    with assms show ?thesis by simp
  qed
qed

lemmas model_defs = run_def empty_ledger_def screen1_def CancelBookingView_post_def
  BookSeatView_post_def is_valid_def seat_number_field_def validate_seat_number_def
  booked_for_seat_def booked_for_show_def create_def save_def get_booking_def
  violates_unique_together_def Let_def

lemma seat1_taken_eq:
  "seat1_taken = \<lparr>User_objects = test_users, Movie_objects = test_movies,
     Show_objects = [1 \<mapsto> screen1 1],
     Booking_objects = [\<lparr>pk = 1, user_id = 1, show_id = 1, seat_number = 1,
                          status = Booked, created_at = 10, updated_at = 10\<rparr>],
     next_pk = 2\<rparr>"
  by (simp add: seat1_taken_def model_defs)

lemma seat1_cancelled_eq:
  "seat1_cancelled = \<lparr>User_objects = test_users, Movie_objects = test_movies,
     Show_objects = [1 \<mapsto> screen1 1],
     Booking_objects = [\<lparr>pk = 1, user_id = 1, show_id = 1, seat_number = 1,
                          status = Cancelled, created_at = 10, updated_at = 11\<rparr>],
     next_pk = 2\<rparr>"
  by (simp add: seat1_cancelled_def model_defs)

lemma rebooked_eq:
  "rebooked = \<lparr>User_objects = test_users, Movie_objects = test_movies,
     Show_objects = [1 \<mapsto> screen1 10],
     Booking_objects = [\<lparr>pk = 1, user_id = 1, show_id = 1, seat_number = 1,
                          status = Cancelled, created_at = 10, updated_at = 11\<rparr>,
                        \<lparr>pk = 2, user_id = 2, show_id = 1, seat_number = 1,
                          status = Booked, created_at = 12, updated_at = 12\<rparr>],
     next_pk = 3\<rparr>"
  by (simp add: rebooked_def model_defs)

lemma run_seat:
  "length (booked_for_seat s sid n) \<le> 1 \<Longrightarrow> length (booked_for_seat (foldl handle s rs) sid n) \<le> 1"
proof (induction rs arbitrary: s)
  case Nil
  then show ?case by simp
next
  case (Cons r rs)
  have "length (booked_for_seat (handle s r) sid n) \<le> 1"
    using Cons.prems by (rule handle_seat)
  from Cons.IH [OF this] show ?case by simp
qed

lemma run_show_count:
  "Show_objects s sid = Some sh \<Longrightarrow> int (length (booked_for_show s sid)) \<le> total_seats sh \<Longrightarrow>
   int (length (booked_for_show (foldl handle s rs) sid)) \<le> total_seats sh"
proof (induction rs arbitrary: s)
  case Nil
  then show ?case by simp
next
  case (Cons r rs)
  have "Show_objects (handle s r) sid = Some sh"
    using Cons.prems(1) by (simp add: handle_Show_objects)
  moreover have "int (length (booked_for_show (handle s r) sid)) \<le> total_seats sh"
    using Cons.prems by (rule handle_show_count)
  ultimately show ?case using Cons.IH by simp
qed

lemma find_pk: "find (\<lambda>r. pk r = k) rows = Some b \<Longrightarrow> pk b = k"
  by (induction rows) (auto split: if_splits)

lemma find_replace:
  "find (\<lambda>r. pk r = k) rows = Some b \<Longrightarrow> pk c = k \<Longrightarrow>
   find (\<lambda>r. pk r = k) (map (\<lambda>r. if pk r = k then c else r) rows) = Some c"
  by (induction rows) (auto split: if_splits)

lemma map_pk_replace:
  "pk c = k \<Longrightarrow> map pk (map (\<lambda>r. if pk r = k then c else r) rows) = map pk rows"
  by (induction rows) auto

lemma cancel_success:
  assumes "CancelBookingView_post s now u bid = (Inr r, s')" "get_booking s bid = Some b"
  shows "user_id b = u \<and> status b = Booked \<and> pk b = bid \<and>
         s' = s\<lparr>Booking_objects :=
                map (\<lambda>x. if pk x = bid then b\<lparr>status := Cancelled, updated_at := now\<rparr> else x)
                  (Booking_objects s)\<rparr> \<and>
         r = BookingSerializer s' (b\<lparr>status := Cancelled, updated_at := now\<rparr>)"
proof -
  have k: "pk b = bid" using assms(2) unfolding get_booking_def by (rule find_pk)
  have st: "status b \<noteq> Cancelled \<Longrightarrow> status b = Booked" by (cases "status b") simp_all
  from assms k show ?thesis
    by (auto simp: CancelBookingView_post_def save_def Let_def st split: if_splits sum.splits)
qed

lemma filter_conj_empty: "filter P xs = [] \<Longrightarrow> filter (\<lambda>x. Q x \<and> P x \<and> R x) xs = []"
  by (induction xs) (auto split: if_splits)

lemma find_snoc_absent:
  "find P xs = None \<Longrightarrow> find P (xs @ [b]) = (if P b then Some b else None)"
  by (induction xs) (auto split: if_splits)

lemma map_replace_absent:
  "find (\<lambda>r. pk r = k) rows = None \<Longrightarrow> map (\<lambda>r. if pk r = k then c else r) rows = rows"
  by (induction rows) (auto split: if_splits)

lemma cancel_blocked_by_cancelled_row:
  assumes "get_booking s bid = Some b" "user_id b = u" "status b = Booked"
    "r \<in> set (Booking_objects s)" "pk r \<noteq> pk b" "show_id r = show_id b"
    "seat_number r = seat_number b" "status r = Cancelled"
  shows "CancelBookingView_post s now u bid = (Inl CancellationFailed, s)"
proof -
  have "violates_unique_together (Booking_objects s) (b\<lparr>status := Cancelled, updated_at := now\<rparr>)"
    unfolding violates_unique_together_def filter_empty_conv using assms(4-8) by auto
  with assms(1-3) show ?thesis
    by (simp add: CancelBookingView_post_def save_def Let_def)
qed

lemma handle_keeps_rows:
  "take (length (Booking_objects s)) (map pk (Booking_objects (handle s r))) =
     map pk (Booking_objects s)"
proof (cases r)
  case (Book now u sid d)
  then show ?thesis using book_effect [of s now u sid d] by auto
next
  case (Cancel now u bid)
  then show ?thesis using cancel_effect [of s now u bid] by (auto simp: map_pk_replace)
qed

lemma handle_length:
  "length (Booking_objects s) \<le> length (Booking_objects (handle s r))"
proof -
  have "length (take (length (Booking_objects s)) (map pk (Booking_objects (handle s r)))) =
      length (map pk (Booking_objects s))"
    by (simp only: handle_keeps_rows)
  then show ?thesis by simp
qed

lemma run_keeps_rows:
  "take (length (Booking_objects s)) (map pk (Booking_objects (run s rs))) =
     map pk (Booking_objects s)"
proof (induction rs arbitrary: s)
  case Nil
  then show ?case by (simp add: run_def)
next
  case (Cons r rs)
  let ?n = "length (Booking_objects s)" and ?m = "length (Booking_objects (handle s r))"
  let ?xs = "map pk (Booking_objects (run (handle s r) rs))"
  have le: "?n \<le> ?m" by (rule handle_length)
  have "take ?n ?xs = take ?n (take ?m ?xs)" using le by (simp add: min_def)
  also have "\<dots> = take ?n (map pk (Booking_objects (handle s r)))" by (simp only: Cons.IH)
  also have "\<dots> = map pk (Booking_objects s)" by (rule handle_keeps_rows)
  finally show ?case by (simp add: run_def)
qed

lemma cancel_twice:
  assumes "get_booking s bid = Some b" "user_id b = u"
  shows "(status b = Cancelled \<longrightarrow>
            CancelBookingView_post s now u bid = (Inl AlreadyCancelled, s))
       \<and> (CancelBookingView_post s now u bid = (Inr r, s') \<longrightarrow>
            CancelBookingView_post s' now' u bid = (Inl AlreadyCancelled, s'))
       \<and> (status b = Booked \<and>
            \<not> violates_unique_together (Booking_objects s) (b\<lparr>status := Cancelled, updated_at := now\<rparr>)
            \<longrightarrow> (\<exists>r s'. CancelBookingView_post s now u bid = (Inr r, s')))"
proof (intro conjI impI)
  assume "status b = Cancelled"
  with assms show "CancelBookingView_post s now u bid = (Inl AlreadyCancelled, s)"
    by (simp add: CancelBookingView_post_def)
next
  assume ok: "CancelBookingView_post s now u bid = (Inr r, s')"
  let ?b' = "b\<lparr>status := Cancelled, updated_at := now\<rparr>"
  note c = cancel_success [OF ok assms(1)]
  from c have rows: "Booking_objects s' = map (\<lambda>x. if pk x = bid then ?b' else x) (Booking_objects s)"
    by simp
  from c have "pk ?b' = bid" by simp
  with assms(1) have "get_booking s' bid = Some ?b'"
    unfolding get_booking_def rows by (rule find_replace)
  moreover from assms(2) have "user_id ?b' = u" "status ?b' = Cancelled" by simp_all
  ultimately show "CancelBookingView_post s' now' u bid = (Inl AlreadyCancelled, s')"
    by (simp add: CancelBookingView_post_def)
next
  assume "status b = Booked \<and>
    \<not> violates_unique_together (Booking_objects s) (b\<lparr>status := Cancelled, updated_at := now\<rparr>)"
  with assms show "\<exists>r s'. CancelBookingView_post s now u bid = (Inr r, s')"
    by (simp add: CancelBookingView_post_def save_def Let_def)
qed

lemma cancel_frame:
  assumes "get_booking s bid = Some b" "status b = Booked" "user_id b = u"
    "CancelBookingView_post s now u bid = (Inr r, s')"
  shows "get_booking s' bid = Some (b\<lparr>status := Cancelled, updated_at := now\<rparr>) \<and>
         Booking_objects s' =
           map (\<lambda>x. if pk x = bid then b\<lparr>status := Cancelled, updated_at := now\<rparr> else x)
             (Booking_objects s) \<and>
         map pk (Booking_objects s') = map pk (Booking_objects s) \<and>
         length (Booking_objects s') = length (Booking_objects s) \<and>
         User_objects s' = User_objects s \<and> Movie_objects s' = Movie_objects s \<and>
         Show_objects s' = Show_objects s \<and> next_pk s' = next_pk s \<and>
         r = BookingSerializer s' (b\<lparr>status := Cancelled, updated_at := now\<rparr>)"
proof -
  let ?b' = "b\<lparr>status := Cancelled, updated_at := now\<rparr>"
  note c = cancel_success [OF assms(4) assms(1)]
  from c have k: "pk b = bid" by simp
  from c have s': "s' = s\<lparr>Booking_objects := map (\<lambda>x. if pk x = bid then ?b' else x) (Booking_objects s)\<rparr>"
    by simp
  from c have r: "r = BookingSerializer s' ?b'" by simp
  have rows: "Booking_objects s' = map (\<lambda>x. if pk x = bid then ?b' else x) (Booking_objects s)"
    by (subst s') simp
  from k have kb: "pk ?b' = bid" by simp
  from assms(1) kb have g: "get_booking s' bid = Some ?b'"
    unfolding get_booking_def rows by (rule find_replace)
  have pks: "map pk (Booking_objects s') = map pk (Booking_objects s)"
    unfolding rows using kb by (rule map_pk_replace)
  have sh: "User_objects s' = User_objects s" "Movie_objects s' = Movie_objects s"
    "Show_objects s' = Show_objects s" "next_pk s' = next_pk s"
    by (subst s', simp)+
  from g rows pks sh r show ?thesis by simp
qed

lemma BookingSerializer_cong:
  "user_id b = user_id c \<Longrightarrow> show_id b = show_id c \<Longrightarrow>
   BookingSerializer s b = BookingSerializer s c"
  by (simp add: BookingSerializer_def)

section \<open>The claims\<close>

text \<open>
  C1. For every show and seat number, a sequence of book and cancel requests never
  leaves more than one booking with status booked for that show and seat: if the
  database holds at most one such row (as the empty table does), so does the
  database after the requests, whatever they are and whoever sends them.
\<close>

theorem at_most_one_booked_per_seat:
  assumes "length (booked_for_seat s sid n) \<le> 1"
  shows "length (booked_for_seat (run s rs) sid n) \<le> 1"
  unfolding run_def using assms by (rule run_seat)

theorem at_most_one_booked_per_seat_witness:
  "length (booked_for_seat (empty_ledger 10) 1 1) \<le> 1 \<and>
   length (booked_for_seat (run (empty_ledger 10)
      [Book 10 1 1 (Some 1), Book 11 2 1 (Some 1), Cancel 12 1 1, Book 13 2 1 (Some 1),
       Book 14 1 1 (Some 1)]) 1 1) \<le> 1 \<and>
   map user_id (booked_for_seat (run (empty_ledger 10)
      [Book 10 1 1 (Some 1), Book 11 2 1 (Some 1), Cancel 12 1 1, Book 13 2 1 (Some 1),
       Book 14 1 1 (Some 1)]) 1 1) = [2]"
proof -
  have h: "length (booked_for_seat (empty_ledger 10) 1 1) \<le> 1"
    by (simp add: booked_for_seat_def empty_ledger_def)
  have e: "map user_id (booked_for_seat (run (empty_ledger 10)
      [Book 10 1 1 (Some 1), Book 11 2 1 (Some 1), Cancel 12 1 1, Book 13 2 1 (Some 1),
       Book 14 1 1 (Some 1)]) 1 1) = [2]"
    by (simp add: model_defs)
  from h e at_most_one_booked_per_seat [OF h] show ?thesis by simp
qed

text \<open>
  C2, as amended. For a show with \<open>total_seats = C\<close>: if the number of booked rows
  of the show is at most \<open>C\<close>, it is still at most \<open>C\<close> after any sequence of book
  and cancel requests; and when that number is already at least \<open>C\<close>, a book request
  whose seat number passes validation fails and changes nothing, with SeatAlreadyBooked
  if the requested seat has a booked row (the seat check comes first) and with ShowFull
  otherwise.
\<close>

theorem capacity_never_exceeded:
  assumes "Show_objects s sid = Some sh"
  shows "(int (length (booked_for_show s sid)) \<le> total_seats sh \<longrightarrow>
            int (length (booked_for_show (run s rs) sid)) \<le> total_seats sh)
       \<and> (is_valid s sid d = Inr n \<and>
            total_seats sh \<le> int (length (booked_for_show s sid)) \<longrightarrow>
            BookSeatView_post s now u sid d =
              (Inl (if booked_for_seat s sid n \<noteq> [] then SeatAlreadyBooked else ShowFull), s))"
proof (intro conjI impI)
  assume "int (length (booked_for_show s sid)) \<le> total_seats sh"
  with assms show "int (length (booked_for_show (run s rs) sid)) \<le> total_seats sh"
    unfolding run_def by (rule run_show_count)
next
  assume "is_valid s sid d = Inr n \<and>
            total_seats sh \<le> int (length (booked_for_show s sid))"
  with assms show "BookSeatView_post s now u sid d =
      (Inl (if booked_for_seat s sid n \<noteq> [] then SeatAlreadyBooked else ShowFull), s)"
    by (simp add: BookSeatView_post_def)
qed

theorem capacity_never_exceeded_witness:
  "int (length (booked_for_show (run (empty_ledger 2)
        [Book 10 1 1 (Some 1), Book 11 2 1 (Some 2), Book 12 3 1 (Some 1), Book 13 3 1 (Some 3)]) 1)) \<le> 2
   \<and> BookSeatView_post seat1_taken 11 2 1 (Some 1) = (Inl SeatAlreadyBooked, seat1_taken)
   \<and> BookSeatView_post shrunk_show 11 2 1 (Some 1) = (Inl ShowFull, shrunk_show)"
proof -
  have sh: "Show_objects (empty_ledger 2) 1 = Some (screen1 2)"
    by (simp add: empty_ledger_def)
  have c: "int (length (booked_for_show (empty_ledger 2) 1)) \<le> total_seats (screen1 2)"
    by (simp add: empty_ledger_def booked_for_show_def screen1_def)
  have sh1: "Show_objects seat1_taken 1 = Some (screen1 1)"
    by (simp add: seat1_taken_eq)
  have p1: "is_valid seat1_taken 1 (Some 1) = Inr 1 \<and>
        total_seats (screen1 1) \<le> int (length (booked_for_show seat1_taken 1))"
    by (simp add: seat1_taken_eq model_defs)
  have t1: "booked_for_seat seat1_taken 1 1 \<noteq> []"
    by (simp add: seat1_taken_eq booked_for_seat_def)
  have sh': "Show_objects shrunk_show 1 = Some (screen1 1)"
    by (simp add: shrunk_show_def)
  have p: "is_valid shrunk_show 1 (Some 1) = Inr 1 \<and>
        total_seats (screen1 1) \<le> int (length (booked_for_show shrunk_show 1))"
    by (simp add: shrunk_show_def model_defs)
  have f: "booked_for_seat shrunk_show 1 1 = []"
    by (simp add: shrunk_show_def booked_for_seat_def)
  note a = capacity_never_exceeded [OF sh, THEN conjunct1, THEN mp, OF c]
  note b1 = capacity_never_exceeded [OF sh1, THEN conjunct2, THEN mp, OF p1]
  note b = capacity_never_exceeded [OF sh', THEN conjunct2, THEN mp, OF p]
  from a [of "[Book 10 1 1 (Some 1), Book 11 2 1 (Some 2), Book 12 3 1 (Some 1), Book 13 3 1 (Some 3)]"]
    b1 [of 11 2] b [of 11 2] t1 f
  show ?thesis by (simp add: screen1_def)
qed

text \<open>
  C2 as stated fails: seat 1 of a one-seat show is booked, so the count has reached the
  capacity, and a second request for seat 1 is answered SeatAlreadyBooked, not ShowFull.
\<close>

theorem show_full_counterexample:
  "Show_objects seat1_taken 1 = Some (screen1 1) \<and>
   total_seats (screen1 1) \<le> int (length (booked_for_show seat1_taken 1)) \<and>
   BookSeatView_post seat1_taken 11 2 1 (Some 1) = (Inl SeatAlreadyBooked, seat1_taken) \<and>
   BookSeatView_post seat1_taken 11 2 1 (Some 1) \<noteq> (Inl ShowFull, seat1_taken)"
  by (simp add: seat1_taken_eq model_defs)

text \<open>
  C5. For an existing show, a book request whose seat number is below 1 or above
  \<open>total_seats\<close> is answered with a validation error and leaves the database as it
  was (no row is inserted); seat validation accepts \<open>n\<close> exactly when
  \<open>1 \<le> n \<le> total_seats\<close>. Seat validation is the serializer's: the field's
  \<open>min_value=1\<close> gives the lower bound and the method \<open>validate_seat_number\<close>, which
  only sees values the field has accepted, the upper bound.
\<close>

theorem out_of_range_seat_rejected:
  assumes "Show_objects s sid = Some sh"
  shows "(n < 1 \<or> total_seats sh < n \<longrightarrow>
           BookSeatView_post s now u sid (Some n) =
             (Inl (ValidationError (if n < 1 then MinValue else SeatOutOfRange (total_seats sh))), s))
       \<and> (is_valid s sid (Some n) = Inr n \<longleftrightarrow> 1 \<le> n \<and> n \<le> total_seats sh)
       \<and> ((\<exists>e. is_valid s sid (Some n) = Inl e) \<longleftrightarrow> n < 1 \<or> total_seats sh < n)
       \<and> (1 \<le> n \<longrightarrow> (validate_seat_number s sid n = Inr n \<longleftrightarrow> n \<le> total_seats sh))"
  using assms
  by (auto simp: BookSeatView_post_def is_valid_def seat_number_field_def validate_seat_number_def)

theorem out_of_range_seat_rejected_witness:
  "BookSeatView_post (empty_ledger 10) 5 1 1 (Some 0) =
     (Inl (ValidationError MinValue), empty_ledger 10)
   \<and> BookSeatView_post (empty_ledger 10) 5 1 1 (Some 999) =
     (Inl (ValidationError (SeatOutOfRange 10)), empty_ledger 10)
   \<and> is_valid (empty_ledger 10) 1 (Some 10) = Inr 10"
proof -
  have sh: "Show_objects (empty_ledger 10) 1 = Some (screen1 10)"
    by (simp add: empty_ledger_def)
  from out_of_range_seat_rejected [OF sh, of 0 5 1]
    out_of_range_seat_rejected [OF sh, of 999 5 1]
    out_of_range_seat_rejected [OF sh, of 10 5 1]
  show ?thesis by (simp add: screen1_def)
qed

text \<open>
  C6. For an existing show and a seat number in range, if a booked row exists for the
  show and seat, the book request is answered SeatAlreadyBooked and the database is
  unchanged. Nothing is assumed about the number of booked rows of the show: the
  answer is the same when the show is full, since the seat check is made before the
  capacity check. The witness is a full one-seat show.
\<close>

theorem taken_seat_rejected:
  assumes "Show_objects s sid = Some sh" "1 \<le> n" "n \<le> total_seats sh"
    "booked_for_seat s sid n \<noteq> []"
  shows "BookSeatView_post s now u sid (Some n) = (Inl SeatAlreadyBooked, s)"
  using assms
  by (simp add: BookSeatView_post_def is_valid_def seat_number_field_def validate_seat_number_def)

theorem taken_seat_rejected_witness:
  "total_seats (screen1 1) \<le> int (length (booked_for_show seat1_taken 1)) \<and>
   BookSeatView_post seat1_taken 11 2 1 (Some 1) = (Inl SeatAlreadyBooked, seat1_taken)"
proof -
  have sh: "Show_objects seat1_taken 1 = Some (screen1 1)"
    by (simp add: seat1_taken_eq)
  have lo: "(1::int) \<le> 1" by simp
  have hi: "(1::int) \<le> total_seats (screen1 1)" by (simp add: screen1_def)
  have taken: "booked_for_seat seat1_taken 1 1 \<noteq> []"
    by (simp add: seat1_taken_eq booked_for_seat_def)
  have full: "total_seats (screen1 1) \<le> int (length (booked_for_show seat1_taken 1))"
    by (simp add: seat1_taken_eq booked_for_show_def screen1_def)
  from full taken_seat_rejected [OF sh lo hi taken, of 11 2] show ?thesis by simp
qed

text \<open>
  C7. For a booking that exists and a requesting user who is not its user, the cancel
  request is answered Forbidden and the database is unchanged. The answer is the same
  constant whatever the booking holds, so it tells the caller only that the booking
  exists and is not theirs. Nothing is assumed about the booking's status: a booking
  that is already cancelled gives Forbidden too, not AlreadyCancelled, as in the witness.
\<close>

theorem cancel_by_other_user_forbidden:
  assumes "get_booking s bid = Some b" "user_id b \<noteq> u"
  shows "CancelBookingView_post s now u bid = (Inl Forbidden, s)"
  using assms by (simp add: CancelBookingView_post_def)

theorem cancel_by_other_user_forbidden_witness:
  "get_booking seat1_cancelled 1 =
     Some \<lparr>pk = 1, user_id = 1, show_id = 1, seat_number = 1, status = Cancelled,
           created_at = 10, updated_at = 11\<rparr>
   \<and> CancelBookingView_post seat1_cancelled 12 2 1 = (Inl Forbidden, seat1_cancelled)"
proof -
  have g: "get_booking seat1_cancelled 1 =
     Some \<lparr>pk = 1, user_id = 1, show_id = 1, seat_number = 1, status = Cancelled,
           created_at = 10, updated_at = 11\<rparr>"
    by (simp add: seat1_cancelled_eq get_booking_def)
  have o: "user_id \<lparr>pk = 1, user_id = 1, show_id = 1, seat_number = 1, status = Cancelled,
           created_at = 10, updated_at = 11\<rparr> \<noteq> 2"
    by simp
  from g cancel_by_other_user_forbidden [OF g o, of 12] show ?thesis by simp
qed

text \<open>
  C4. The claim says that book-then-cancel can be repeated on a seat without end. The
  code stops at the second cancellation: user 1 booked and cancelled seat 1 of a
  ten-seat show, user 2 booked it again (\<open>rebooked\<close>), and user 2's cancel of that
  active booking of their own is answered with the 500 response of the view's
  \<open>except Exception\<close> branch, the database unchanged and the booking still booked.
  The UPDATE would make a second row (show 1, seat 1, cancelled), which
  \<open>unique_together\<close> refuses (\<open>cancel_blocked_by_cancelled_row\<close> is the general
  statement). That no request deletes a row is \<open>run_keeps_rows\<close>.
\<close>

theorem second_cancellation_fails:
  "get_booking rebooked 2 =
     Some \<lparr>pk = 2, user_id = 2, show_id = 1, seat_number = 1, status = Booked,
           created_at = 12, updated_at = 12\<rparr>
   \<and> CancelBookingView_post rebooked 13 2 2 = (Inl CancellationFailed, rebooked)
   \<and> status_code CancellationFailed = 500"
  by (simp add: rebooked_eq CancelBookingView_post_def save_def get_booking_def
      violates_unique_together_def Let_def)

text \<open>
  C8. The claim's first half holds: the owner's cancel of a booking that is already
  cancelled is answered AlreadyCancelled and changes nothing, and after a cancel that
  succeeded the owner's next cancel is answered AlreadyCancelled (\<open>cancel_twice\<close>).
  Its second half says that of two cancel calls by the owner the first succeeds. On
  \<open>rebooked\<close> it does not: booking 2 is booked and belongs to user 2, seat 1 of the
  show already has a cancelled row, and both of user 2's cancel calls are answered with
  the 500 response, the booking still booked after them.
\<close>

theorem two_cancels_both_fail:
  "get_booking rebooked 2 =
     Some \<lparr>pk = 2, user_id = 2, show_id = 1, seat_number = 1, status = Booked,
           created_at = 12, updated_at = 12\<rparr>
   \<and> CancelBookingView_post rebooked 13 2 2 = (Inl CancellationFailed, rebooked)
   \<and> CancelBookingView_post (snd (CancelBookingView_post rebooked 13 2 2)) 14 2 2 =
       (Inl CancellationFailed, rebooked)
   \<and> get_booking (run rebooked [Cancel 13 2 2, Cancel 14 2 2]) 2 = get_booking rebooked 2"
  by (simp add: rebooked_eq run_def CancelBookingView_post_def save_def get_booking_def
      violates_unique_together_def Let_def)

text \<open>
  C9. On the database the claim holds: a successful cancel by the owner sets the
  row's status to cancelled and its \<open>updated_at\<close> to the time of the call, leaves its
  other fields, every other row and the order and number of rows as they were, and
  deletes nothing (\<open>cancel_frame\<close>). The response does not return the updated
  booking: user 1 cancels booking 1 of a one-seat show, and the \<open>booking\<close> entry of
  the 200 body holds the show's details and the username only. It is the same data as
  that of a booking with another key, seat, status and timestamps.
\<close>

theorem cancel_response_omits_booking:
  "get_booking seat1_taken 1 =
     Some \<lparr>pk = 1, user_id = 1, show_id = 1, seat_number = 1, status = Booked,
           created_at = 10, updated_at = 10\<rparr>
   \<and> CancelBookingView_post seat1_taken 11 1 1 =
       (Inr \<lparr>show_details =
               Some \<lparr>sd_id = 1, sd_movie = 1, sd_movie_title = Some ''Test Movie'',
                     sd_screen_name = ''Screen 1'', sd_date_time = 100, sd_total_seats = 1,
                     sd_available_seats = 1, sd_created_at = 0\<rparr>,
             username = Some ''testuser1''\<rparr>,
        seat1_cancelled)
   \<and> get_booking seat1_cancelled 1 =
       Some \<lparr>pk = 1, user_id = 1, show_id = 1, seat_number = 1, status = Cancelled,
             created_at = 10, updated_at = 11\<rparr>
   \<and> BookingSerializer seat1_cancelled
         \<lparr>pk = 1, user_id = 1, show_id = 1, seat_number = 1, status = Cancelled,
          created_at = 10, updated_at = 11\<rparr> =
       BookingSerializer seat1_cancelled
         \<lparr>pk = 7, user_id = 1, show_id = 1, seat_number = 5, status = Booked,
          created_at = 0, updated_at = 0\<rparr>"
  by (simp add: seat1_taken_eq seat1_cancelled_eq CancelBookingView_post_def save_def
      get_booking_def violates_unique_together_def Let_def BookingSerializer_def
      ShowSerializer_def get_available_seats_def booked_for_show_def screen1_def
      test_users_def test_movies_def)

text \<open>
  C10. A show with \<open>total_seats = 1\<close> that has no bookings yet, and two distinct
  users A and B: A's book of seat 1 succeeds and stores A's booked row; B's book of
  seat 1 is then answered SeatAlreadyBooked; A's cancel of that booking succeeds and
  the row is stored cancelled; B's book of seat 1 then succeeds, and the one booked row
  of the seat is B's, whose user differs from the first booking's. \<open>fresh\<close> says the
  next primary key is unused, as the database's auto-increment guarantees.
\<close>

theorem rebook_by_other_user:
  assumes sh: "Show_objects s sid = Some sh" and one: "total_seats sh = 1" and ab: "A \<noteq> B"
    and nob: "filter (\<lambda>r. show_id r = sid) (Booking_objects s) = []"
    and fresh: "get_booking s (next_pk s) = None"
  shows "\<exists>r1 s1 b1 r3 s3 b1' r4 s4 b4.
     BookSeatView_post s t1 A sid (Some 1) = (Inr r1, s1) \<and>
     r1 = BookingSerializer s1 b1 \<and> get_booking s1 (pk b1) = Some b1 \<and>
     booked_for_seat s1 sid 1 = [b1] \<and> user_id b1 = A \<and> status b1 = Booked \<and>
     BookSeatView_post s1 t2 B sid (Some 1) = (Inl SeatAlreadyBooked, s1) \<and>
     CancelBookingView_post s1 t3 A (pk b1) = (Inr r3, s3) \<and>
     r3 = BookingSerializer s3 b1' \<and> get_booking s3 (pk b1) = Some b1' \<and>
     pk b1' = pk b1 \<and> status b1' = Cancelled \<and> booked_for_seat s3 sid 1 = [] \<and>
     BookSeatView_post s3 t4 B sid (Some 1) = (Inr r4, s4) \<and>
     r4 = BookingSerializer s4 b4 \<and>
     user_id b4 = B \<and> user_id b4 \<noteq> user_id b1 \<and>
     booked_for_seat s4 sid 1 = [b4]"
proof -
  define rows where "rows = Booking_objects s"
  define k where "k = next_pk s"
  define b1 where "b1 = \<lparr>pk = k, user_id = A, show_id = sid, seat_number = 1,
     status = Booked, created_at = t1, updated_at = t1\<rparr>"
  define s1 where "s1 = s\<lparr>Booking_objects := rows @ [b1], next_pk := Suc k\<rparr>"
  define b1' where "b1' = b1\<lparr>status := Cancelled, updated_at := t3\<rparr>"
  define s3 where "s3 = s1\<lparr>Booking_objects := rows @ [b1']\<rparr>"
  define b4 where "b4 = \<lparr>pk = Suc k, user_id = B, show_id = sid, seat_number = 1,
     status = Booked, created_at = t4, updated_at = t4\<rparr>"
  define s4 where "s4 = s3\<lparr>Booking_objects := rows @ [b1', b4], next_pk := Suc (Suc k)\<rparr>"
  have none: "\<And>Q R. filter (\<lambda>r. Q r \<and> show_id r = sid \<and> R r) rows = []"
    using nob unfolding rows_def by (rule filter_conj_empty)
  have none2: "\<And>R. filter (\<lambda>r. show_id r = sid \<and> R r) rows = []"
    using none [of "\<lambda>r. True"] by simp
  have fr: "find (\<lambda>r. pk r = k) rows = None"
    using fresh unfolding get_booking_def rows_def k_def .
  have b1f: "pk b1 = k" "user_id b1 = A" "show_id b1 = sid" "seat_number b1 = 1"
    "status b1 = Booked"
    by (simp_all add: b1_def)
  have b1'f: "pk b1' = k" "user_id b1' = A" "show_id b1' = sid" "seat_number b1' = 1"
    "status b1' = Cancelled"
    by (simp_all add: b1'_def b1_def)
  have b4f: "pk b4 = Suc k" "user_id b4 = B" "show_id b4 = sid" "seat_number b4 = 1"
    "status b4 = Booked"
    by (simp_all add: b4_def)
  have valid: "\<And>s'. Show_objects s' sid = Some sh \<Longrightarrow> is_valid s' sid (Some 1) = Inr 1"
    using one by (simp add: is_valid_def seat_number_field_def validate_seat_number_def)
  have rows1: "Booking_objects s1 = rows @ [b1]" by (simp add: s1_def)
  have rows3: "Booking_objects s3 = rows @ [b1']" by (simp add: s3_def)
  have sh1: "Show_objects s1 sid = Some sh" using sh by (simp add: s1_def)
  have sh3: "Show_objects s3 sid = Some sh" using sh1 by (simp add: s3_def)
  have k3: "next_pk s3 = Suc k" by (simp add: s3_def s1_def)
  have c1: "create s t1 A sid 1 = Inr (b1, s1)"
    using none [of "\<lambda>r. pk r \<noteq> k" "\<lambda>r. seat_number r = 1 \<and> status r = Booked"]
    by (simp add: create_def violates_unique_together_def Let_def rows_def [symmetric]
        k_def [symmetric] b1_def s1_def)
  have free0: "booked_for_seat s sid 1 = []" "booked_for_show s sid = []"
    using none2 by (simp_all add: booked_for_seat_def booked_for_show_def rows_def [symmetric])
  have step1: "BookSeatView_post s t1 A sid (Some 1) = (Inr (BookingSerializer s1 b1), s1)"
    using sh one valid [OF sh] free0 c1 by (simp add: BookSeatView_post_def)
  have seat1: "booked_for_seat s1 sid 1 = [b1]"
    using none2 by (simp add: booked_for_seat_def rows1 b1f)
  have step2: "BookSeatView_post s1 t2 B sid (Some 1) = (Inl SeatAlreadyBooked, s1)"
    using sh1 valid [OF sh1] seat1 by (simp add: BookSeatView_post_def)
  have get1: "get_booking s1 k = Some b1"
    unfolding get_booking_def rows1 using find_snoc_absent [OF fr, of b1] by (simp add: b1f)
  have map0: "map (\<lambda>r. if pk r = k then b1' else r) rows = rows"
    using fr by (rule map_replace_absent)
  have upd: "b1\<lparr>status := Cancelled, updated_at := t3\<rparr> = b1'" by (simp add: b1'_def)
  have sv: "save s1 t3 (b1\<lparr>status := Cancelled\<rparr>) = Inr (b1', s3)"
    using none [of "\<lambda>r. pk r \<noteq> k" "\<lambda>r. seat_number r = 1 \<and> status r = Cancelled"]
    by (simp add: save_def violates_unique_together_def Let_def rows1 upd b1'f b1f map0 s3_def)
  have step3: "CancelBookingView_post s1 t3 A k = (Inr (BookingSerializer s3 b1'), s3)"
    using get1 sv by (simp add: CancelBookingView_post_def b1f)
  have get3: "get_booking s3 k = Some b1'"
    unfolding get_booking_def rows3 using find_snoc_absent [OF fr, of b1'] by (simp add: b1'f)
  have free3: "booked_for_seat s3 sid 1 = []" "booked_for_show s3 sid = []"
    using none2 by (simp_all add: booked_for_seat_def booked_for_show_def rows3 b1'f)
  have c4: "create s3 t4 B sid 1 = Inr (b4, s4)"
    using none [of "\<lambda>r. pk r \<noteq> Suc k" "\<lambda>r. seat_number r = 1 \<and> status r = Booked"]
    by (simp add: create_def violates_unique_together_def Let_def rows3 k3 b1'f b4_def s4_def)
  have step4: "BookSeatView_post s3 t4 B sid (Some 1) = (Inr (BookingSerializer s4 b4), s4)"
    using sh3 one valid [OF sh3] free3 c4 by (simp add: BookSeatView_post_def)
  have last: "booked_for_seat s4 sid 1 = [b4]"
    using none2 by (simp add: booked_for_seat_def s4_def b1'f b4f)
  have "BookSeatView_post s t1 A sid (Some 1) = (Inr (BookingSerializer s1 b1), s1) \<and>
     BookingSerializer s1 b1 = BookingSerializer s1 b1 \<and> get_booking s1 (pk b1) = Some b1 \<and>
     booked_for_seat s1 sid 1 = [b1] \<and> user_id b1 = A \<and> status b1 = Booked \<and>
     BookSeatView_post s1 t2 B sid (Some 1) = (Inl SeatAlreadyBooked, s1) \<and>
     CancelBookingView_post s1 t3 A (pk b1) = (Inr (BookingSerializer s3 b1'), s3) \<and>
     BookingSerializer s3 b1' = BookingSerializer s3 b1' \<and> get_booking s3 (pk b1) = Some b1' \<and>
     pk b1' = pk b1 \<and> status b1' = Cancelled \<and> booked_for_seat s3 sid 1 = [] \<and>
     BookSeatView_post s3 t4 B sid (Some 1) = (Inr (BookingSerializer s4 b4), s4) \<and>
     BookingSerializer s4 b4 = BookingSerializer s4 b4 \<and>
     user_id b4 = B \<and> user_id b4 \<noteq> user_id b1 \<and>
     booked_for_seat s4 sid 1 = [b4]"
    using step1 seat1 get1 step2 step3 get3 free3(1) step4 last ab
    by (simp add: b1f b1'f b4f)
  then show ?thesis by blast
qed

theorem rebook_by_other_user_witness:
  "\<exists>r1 s1 b1 r3 s3 b1' r4 s4 b4.
     BookSeatView_post (empty_ledger 1) 10 1 1 (Some 1) = (Inr r1, s1) \<and>
     r1 = BookingSerializer s1 b1 \<and> get_booking s1 (pk b1) = Some b1 \<and>
     booked_for_seat s1 1 1 = [b1] \<and> user_id b1 = 1 \<and> status b1 = Booked \<and>
     BookSeatView_post s1 11 2 1 (Some 1) = (Inl SeatAlreadyBooked, s1) \<and>
     CancelBookingView_post s1 12 1 (pk b1) = (Inr r3, s3) \<and>
     r3 = BookingSerializer s3 b1' \<and> get_booking s3 (pk b1) = Some b1' \<and>
     pk b1' = pk b1 \<and> status b1' = Cancelled \<and> booked_for_seat s3 1 1 = [] \<and>
     BookSeatView_post s3 13 2 1 (Some 1) = (Inr r4, s4) \<and>
     r4 = BookingSerializer s4 b4 \<and>
     user_id b4 = 2 \<and> user_id b4 \<noteq> user_id b1 \<and>
     booked_for_seat s4 1 1 = [b4]"
proof -
  have sh: "Show_objects (empty_ledger 1) 1 = Some (screen1 1)"
    by (simp add: empty_ledger_def)
  have one: "total_seats (screen1 1) = 1" by (simp add: screen1_def)
  have ab: "(1::nat) \<noteq> 2" by simp
  have nob: "filter (\<lambda>r. show_id r = 1) (Booking_objects (empty_ledger 1)) = []"
    by (simp add: empty_ledger_def)
  have fresh: "get_booking (empty_ledger 1) (next_pk (empty_ledger 1)) = None"
    by (simp add: empty_ledger_def get_booking_def)
  show ?thesis by (rule rebook_by_other_user [OF sh one ab nob fresh])
qed

end
